theory Spec2Isabelle
  imports Complex_Main
begin

section \<open>Data model\<close>

text \<open>
  The sample \<^verbatim>\<open>samples/v1/enable_live_rule.py\<close> validates a rule identifier against a
  compiled regular expression, issues one POST through an authorised session, prints the
  body of an error response, lets the response raise for an error status and returns the
  second \<^verbatim>\<open>/\<close>-separated segment of the \<^verbatim>\<open>name\<close> field of the decoded JSON body.

  Python strings are modelled as \<^typ>\<open>string\<close>. Every character the pattern and the
  split look at is ASCII.
\<close>

subsection \<open>Decoded JSON values\<close>

text \<open>
  What \<^verbatim>\<open>response.json()\<close> can return: \<^verbatim>\<open>None\<close>, a bool, an int, a float, a str, a list
  or a dict with string keys. The dict is an association list read with \<^const>\<open>map_of\<close>.
\<close>

datatype json_value =
    JNull
  | JBool bool
  | JInt int
  | JFloat real
  | JStr string
  | JArr "json_value list"
  | JObj "(string \<times> json_value) list"

subsection \<open>Exceptions\<close>

text \<open>
  Every exception that can leave \<^verbatim>\<open>enable_live_rule\<close>. \<open>ValueError\<close> carries its message,
  \<open>HTTPError\<close> the status code and the body of the response it was raised for,
  \<open>KeyError\<close> the missing key. \<open>TransportError\<close> stands for whatever the session's
  \<^verbatim>\<open>request\<close> itself raises (connection failure, timeout). \<open>PrintError\<close> stands for
  whatever \<^verbatim>\<open>print\<close> raises when standard output does not take the text
  (\<^verbatim>\<open>UnicodeEncodeError\<close> when its encoding cannot represent the text, \<^verbatim>\<open>OSError\<close> when it
  is closed or broken), and carries the name of that exception.
\<close>

datatype error =
    ValueError string
  | TransportError string
  | PrintError string
  | HTTPError int string
  | JSONDecodeError
  | KeyError string
  | TypeError
  | AttributeError
  | IndexError

subsection \<open>Responses and sessions\<close>

text \<open>
  The three parts of a response the function reads: \<^verbatim>\<open>status_code\<close>, \<^verbatim>\<open>text\<close> (here
  \<open>text_body\<close>) and the outcome of \<^verbatim>\<open>json()\<close>, which is \<open>None\<close> when the body does not
  decode. The record is extensible: whatever else a response holds (headers, reason, URL,
  cookies) lives in its extension, which the function never reads.
\<close>

record response =
  status_code :: int
  text_body :: string
  json :: "json_value option"

text \<open>
  A session answers \<^verbatim>\<open>request(method, url)\<close> with a response or raises.
\<close>

type_synonym 'a http_session = "string \<Rightarrow> string \<Rightarrow> error + 'a response_scheme"

subsection \<open>Observable effects\<close>

text \<open>
  The function's effects in the order they happen: a request sent through the session
  (method and URL) and a line printed to standard output.
\<close>

datatype event = Request string string | Print string

text \<open>
  Standard output is not an argument of the Python function but part of the process it
  runs in. What it does with a text it is asked to write: it takes the text (\<open>None\<close>), or
  the write raises the named exception.
\<close>

type_synonym stdout = "string \<Rightarrow> string option"

section \<open>The rule identifier pattern\<close>

text \<open>
  The fragment of Python's regular expressions that \<^verbatim>\<open>RULE_ID_PATTERN\<close> uses: a literal
  character, a character class of inclusive ranges, a fixed repetition \<^verbatim>\<open>r{n}\<close>, and
  concatenation. None of them offers a choice, so matching a prefix has at most one
  outcome: the rest of the input.
\<close>

datatype regex =
    Eps
  | Chr char
  | Cls "(char \<times> char) list"
  | Rep regex nat
  | Cat regex regex

fun in_ranges :: "(char \<times> char) list \<Rightarrow> char \<Rightarrow> bool" where
  "in_ranges [] c = False"
| "in_ranges ((lo, hi) # rs) c =
     (((of_char lo :: nat) \<le> of_char c \<and> (of_char c :: nat) \<le> of_char hi) \<or> in_ranges rs c)"

function rmatch :: "regex \<Rightarrow> string \<Rightarrow> string option" where
  "rmatch Eps s = Some s"
| "rmatch (Chr c) s = (case s of [] \<Rightarrow> None | x # xs \<Rightarrow> if x = c then Some xs else None)"
| "rmatch (Cls rs) s = (case s of [] \<Rightarrow> None | x # xs \<Rightarrow> if in_ranges rs x then Some xs else None)"
| "rmatch (Rep r 0) s = Some s"
| "rmatch (Rep r (Suc n)) s = (case rmatch r s of None \<Rightarrow> None | Some t \<Rightarrow> rmatch (Rep r n) t)"
| "rmatch (Cat a b) s = (case rmatch a s of None \<Rightarrow> None | Some t \<Rightarrow> rmatch b t)"
  by pat_completeness auto
termination
  by (relation "measures [\<lambda>p. size (fst p), \<lambda>p. case fst p of Rep _ n \<Rightarrow> n | _ \<Rightarrow> 0]") auto

text \<open>\<^verbatim>\<open>Pattern.fullmatch\<close>: the pattern must consume the whole string.\<close>

definition fullmatch :: "regex \<Rightarrow> string \<Rightarrow> bool" where
  "fullmatch p s \<longleftrightarrow> rmatch p s = Some []"

fun seq :: "regex list \<Rightarrow> regex" where
  "seq [] = Eps"
| "seq (r # rs) = Cat r (seq rs)"

text \<open>The class \<^verbatim>\<open>[a-fA-F0-9]\<close>.\<close>

definition hex_class :: regex where
  "hex_class = Cls [(CHR ''a'', CHR ''f''), (CHR ''A'', CHR ''F''), (CHR ''0'', CHR ''9'')]"

text \<open>
  \<^verbatim>\<open>ru_[a-fA-F0-9]{8}-[a-fA-F0-9]{4}-[a-fA-F0-9]{4}-[a-fA-F0-9]{4}-[a-fA-F0-9]{12}\<close>
\<close>

definition RULE_ID_PATTERN :: regex where
  "RULE_ID_PATTERN =
     seq [Chr CHR ''r'', Chr CHR ''u'', Chr CHR ''_'',
          Rep hex_class 8, Chr CHR ''-'',
          Rep hex_class 4, Chr CHR ''-'',
          Rep hex_class 4, Chr CHR ''-'',
          Rep hex_class 4, Chr CHR ''-'',
          Rep hex_class 12]"

section \<open>The Python operations on the response\<close>

text \<open>
  \<^verbatim>\<open>Response.raise_for_status\<close> belongs to the \<^verbatim>\<open>requests\<close> library, not to this
  repository. It raises \<open>HTTPError\<close> for a client error status (400 to 499) and for a
  server error status (500 to 599), and returns for every other status.
\<close>

definition raise_for_status :: "'a response_scheme \<Rightarrow> error option" where
  "raise_for_status response =
     (if 400 \<le> status_code response \<and> status_code response < 500
        then Some (HTTPError (status_code response) (text_body response))
      else if 500 \<le> status_code response \<and> status_code response < 600
        then Some (HTTPError (status_code response) (text_body response))
      else None)"

text \<open>
  \<^verbatim>\<open>value[key]\<close> with a string key: a dict looks the key up and raises \<open>KeyError\<close> when
  it is missing; a list and a str accept integer indices only and every other decoded
  value is not subscriptable, all of which is \<open>TypeError\<close>.
\<close>

fun getitem :: "json_value \<Rightarrow> string \<Rightarrow> error + json_value" where
  "getitem (JObj kvs) key =
     (case map_of kvs key of None \<Rightarrow> Inl (KeyError key) | Some v \<Rightarrow> Inr v)"
| "getitem _ key = Inl TypeError"

text \<open>
  \<^verbatim>\<open>str.split(sep)\<close> with a one-character separator: cut at every occurrence, keeping
  empty pieces. \<open>acc\<close> is the piece being read.
\<close>

fun split_from :: "char \<Rightarrow> string \<Rightarrow> string \<Rightarrow> string list" where
  "split_from sep acc [] = [acc]"
| "split_from sep acc (c # cs) =
     (if c = sep then acc # split_from sep [] cs else split_from sep (acc @ [c]) cs)"

definition str_split :: "string \<Rightarrow> char \<Rightarrow> string list" where
  "str_split s sep = split_from sep [] s"

text \<open>Only a str has the method; on any other decoded value the attribute lookup fails.\<close>

fun split_method :: "json_value \<Rightarrow> char \<Rightarrow> error + string list" where
  "split_method (JStr s) sep = Inr (str_split s sep)"
| "split_method _ sep = Inl AttributeError"

text \<open>\<^verbatim>\<open>xs[i]\<close> for a non-negative \<open>i\<close>.\<close>

definition index :: "'a list \<Rightarrow> nat \<Rightarrow> error + 'a" where
  "index xs i = (if i < length xs then Inr (xs ! i) else Inl IndexError)"

section \<open>enable\_live\_rule\<close>

definition CHRONICLE_API_BASE_URL :: string where
  "CHRONICLE_API_BASE_URL = ''https://backstory.googleapis.com''"

text \<open>\<^verbatim>\<open>response.json()["name"].split("/")[1]\<close>, evaluated left to right.\<close>

definition operation_id :: "'a response_scheme \<Rightarrow> error + string" where
  "operation_id response =
     (case json response of
        None \<Rightarrow> Inl JSONDecodeError
      | Some body \<Rightarrow>
          (case getitem body ''name'' of
             Inl e \<Rightarrow> Inl e
           | Inr name \<Rightarrow>
               (case split_method name CHR ''/'' of
                  Inl e \<Rightarrow> Inl e
                | Inr parts \<Rightarrow> index parts 1)))"

text \<open>
  \<^verbatim>\<open>print(text)\<close>: the line is printed, or the exception of standard output propagates and
  nothing is printed.
\<close>

definition print :: "stdout \<Rightarrow> string \<Rightarrow> error + event list" where
  "print stdout line =
     (case stdout line of None \<Rightarrow> Inr [Print line] | Some name \<Rightarrow> Inl (PrintError name))"

text \<open>
  The function returns its result, or the exception that left it, together with the
  effects it had, oldest first. The print of line 65 comes before \<^verbatim>\<open>raise_for_status\<close>, so
  an exception of the print leaves the function before the status is looked at again.
\<close>

definition enable_live_rule ::
  "stdout \<Rightarrow> 'a http_session \<Rightarrow> string \<Rightarrow> (error + string) \<times> event list" where
  "enable_live_rule stdout http_session rule_id =
     (if \<not> fullmatch RULE_ID_PATTERN rule_id then
        (Inl (ValueError (''Invalid detection rule ID: '' @ [CHR 0x27] @ rule_id @ [CHR 0x27]
                           @ '' != 'ru_<UUID>'.'')), [])
      else
        let url = CHRONICLE_API_BASE_URL @ ''/v1/rules/'' @ rule_id @ '':enableLiveRule'' in
        (case http_session ''POST'' url of
           Inl e \<Rightarrow> (Inl e, [Request ''POST'' url])
         | Inr response \<Rightarrow>
             (case (if status_code response \<ge> 400 then print stdout (text_body response)
                    else Inr []) of
                Inl e \<Rightarrow> (Inl e, [Request ''POST'' url])
              | Inr printed \<Rightarrow>
                  (case raise_for_status response of
                     Some e \<Rightarrow> (Inl e, Request ''POST'' url # printed)
                   | None \<Rightarrow> (operation_id response, Request ''POST'' url # printed)))))"


section \<open>Vocabulary of the specification\<close>

subsection \<open>Identifier shapes\<close>

text \<open>
  The specification describes a rule identifier as \<^verbatim>\<open>ru_\<close> followed by a UUID in the
  canonical 8-4-4-4-12 grouping of hexadecimal digits of either case, the groups separated
  by hyphens, and an operation identifier as \<^verbatim>\<open>rulejob_jo_\<close> followed by such a UUID. These
  predicates follow those words, independently of the regular expression.
\<close>

definition is_hex_digit :: "char \<Rightarrow> bool" where
  "is_hex_digit c \<longleftrightarrow> c \<in> set ''0123456789abcdefABCDEF''"

definition uuid_shape :: "string \<Rightarrow> bool" where
  "uuid_shape u \<longleftrightarrow> (\<exists>g1 g2 g3 g4 g5.
      u = g1 @ ''-'' @ g2 @ ''-'' @ g3 @ ''-'' @ g4 @ ''-'' @ g5 \<and>
      length g1 = 8 \<and> length g2 = 4 \<and> length g3 = 4 \<and> length g4 = 4 \<and> length g5 = 12 \<and>
      list_all is_hex_digit (g1 @ g2 @ g3 @ g4 @ g5))"

definition rule_id_shape :: "string \<Rightarrow> bool" where
  "rule_id_shape s \<longleftrightarrow> (\<exists>u. s = ''ru_'' @ u \<and> uuid_shape u)"

definition operation_id_shape :: "string \<Rightarrow> bool" where
  "operation_id_shape s \<longleftrightarrow> (\<exists>u. s = ''rulejob_jo_'' @ u \<and> uuid_shape u)"

subsection \<open>The suffix after the first slash\<close>

text \<open>Everything that follows the first \<^verbatim>\<open>/\<close> of a string (nothing when it has none).\<close>

definition suffix_after_first_slash :: "string \<Rightarrow> string" where
  "suffix_after_first_slash s = drop 1 (dropWhile (\<lambda>c. c \<noteq> CHR ''/'') s)"

subsection \<open>Error kinds\<close>

text \<open>
  The error kinds the specification lists, and the exceptions of the source that realise
  them: \<open>InvalidArgument\<close> is the \<open>ValueError\<close> of the identifier check, \<open>HttpError\<close> the
  \<open>HTTPError\<close> of the error status, \<open>TransportFailure\<close> what the session raises. The
  source defines no exception for \<open>MalformedResponse\<close>; the errors of Python's own
  operations on the decoded body are what the specification calls low-level errors, and
  belong to none of its kinds.
\<close>

datatype error_kind = InvalidArgument | HttpError | MalformedResponse | TransportFailure

fun spec_error_kind :: "error \<Rightarrow> error_kind option" where
  "spec_error_kind (ValueError msg) = Some InvalidArgument"
| "spec_error_kind (HTTPError code body) = Some HttpError"
| "spec_error_kind (TransportError msg) = Some TransportFailure"
| "spec_error_kind (PrintError name) = None"
| "spec_error_kind JSONDecodeError = None"
| "spec_error_kind (KeyError key) = None"
| "spec_error_kind TypeError = None"
| "spec_error_kind AttributeError = None"
| "spec_error_kind IndexError = None"

subsection \<open>Reading the effects\<close>

fun requests_of :: "event list \<Rightarrow> (string \<times> string) list" where
  "requests_of [] = []"
| "requests_of (Request method url # es) = (method, url) # requests_of es"
| "requests_of (Print line # es) = requests_of es"

fun prints_of :: "event list \<Rightarrow> string list" where
  "prints_of [] = []"
| "prints_of (Request method url # es) = prints_of es"
| "prints_of (Print line # es) = line # prints_of es"

subsection \<open>Sessions and standard outputs for concrete runs\<close>

text \<open>A session that answers every request with the given response, and one that raises.\<close>

definition fake_session :: "'a response_scheme \<Rightarrow> 'a http_session" where
  "fake_session response method url = Inr response"

definition failing_session :: "error \<Rightarrow> 'a http_session" where
  "failing_session e method url = Inl e"

text \<open>
  A standard output that takes every text (a UTF-8 terminal), and one whose encoding is
  ASCII: writing a character outside ASCII raises \<^verbatim>\<open>UnicodeEncodeError\<close>.
\<close>

definition accepting_stdout :: stdout where
  "accepting_stdout line = None"


section \<open>The pattern accepts exactly the rule identifiers\<close>

lemma of_char_eq_iff_char: "(of_char c :: nat) = of_char d \<longleftrightarrow> c = d"
  by (metis char_of_char)

lemma hex_code_cases:
  "(97 \<le> n \<and> n \<le> 102) \<or> (65 \<le> n \<and> n \<le> 70) \<or> (48 \<le> n \<and> n \<le> 57) \<longleftrightarrow>
     n = 48 \<or> n = 49 \<or> n = 50 \<or> n = 51 \<or> n = 52 \<or> n = 53 \<or> n = 54 \<or> n = 55 \<or> n = 56 \<or> n = 57 \<or>
     n = 65 \<or> n = 66 \<or> n = 67 \<or> n = 68 \<or> n = 69 \<or> n = 70 \<or>
     n = 97 \<or> n = 98 \<or> n = 99 \<or> n = 100 \<or> n = 101 \<or> n = (102::nat)"
  by arith

lemma in_hex_ranges_iff:
  "in_ranges [(CHR ''a'', CHR ''f''), (CHR ''A'', CHR ''F''), (CHR ''0'', CHR ''9'')] c \<longleftrightarrow> is_hex_digit c"
proof -
  define n where "n = (of_char c :: nat)"
  have lhs: "in_ranges [(CHR ''a'', CHR ''f''), (CHR ''A'', CHR ''F''), (CHR ''0'', CHR ''9'')] c
      \<longleftrightarrow> (97 \<le> n \<and> n \<le> 102) \<or> (65 \<le> n \<and> n \<le> 70) \<or> (48 \<le> n \<and> n \<le> 57)"
    by (simp add: n_def)
  have rhs: "is_hex_digit c \<longleftrightarrow>
     n = 48 \<or> n = 49 \<or> n = 50 \<or> n = 51 \<or> n = 52 \<or> n = 53 \<or> n = 54 \<or> n = 55 \<or> n = 56 \<or> n = 57 \<or>
     n = 65 \<or> n = 66 \<or> n = 67 \<or> n = 68 \<or> n = 69 \<or> n = 70 \<or>
     n = 97 \<or> n = 98 \<or> n = 99 \<or> n = 100 \<or> n = 101 \<or> n = 102"
  proof -
    have "inj (of_char :: char \<Rightarrow> nat)"
      by (rule injI) (simp add: of_char_eq_iff_char)
    then have "is_hex_digit c \<longleftrightarrow> n \<in> of_char ` set ''0123456789abcdefABCDEF''"
      unfolding is_hex_digit_def n_def by (simp only: inj_image_mem_iff)
    then show ?thesis by auto
  qed
  show ?thesis unfolding lhs rhs by (rule hex_code_cases)
qed

lemma rmatch_Chr_iff: "rmatch (Chr c) s = Some t \<longleftrightarrow> s = c # t"
  by (cases s) auto

lemma rmatch_hex_iff: "rmatch hex_class s = Some t \<longleftrightarrow> (\<exists>x. s = x # t \<and> is_hex_digit x)"
  unfolding hex_class_def by (cases s) (auto simp add: in_hex_ranges_iff simp del: in_ranges.simps)

lemma rmatch_Rep_hex_iff:
  "rmatch (Rep hex_class n) s = Some t \<longleftrightarrow> (\<exists>g. s = g @ t \<and> length g = n \<and> list_all is_hex_digit g)"
proof (induction n arbitrary: s)
  case 0
  show ?case by auto
next
  case (Suc n)
  show ?case
  proof
    assume "rmatch (Rep hex_class (Suc n)) s = Some t"
    then obtain u where u: "rmatch hex_class s = Some u" and r: "rmatch (Rep hex_class n) u = Some t"
      by (auto split: option.splits)
    from u obtain x where x: "s = x # u" "is_hex_digit x" by (auto simp: rmatch_hex_iff)
    from r Suc.IH obtain g where g: "u = g @ t" "length g = n" "list_all is_hex_digit g" by blast
    have "s = (x # g) @ t \<and> length (x # g) = Suc n \<and> list_all is_hex_digit (x # g)"
      using x g by simp
    then show "\<exists>g. s = g @ t \<and> length g = Suc n \<and> list_all is_hex_digit g" by blast
  next
    assume "\<exists>g. s = g @ t \<and> length g = Suc n \<and> list_all is_hex_digit g"
    then obtain g where g: "s = g @ t" "length g = Suc n" "list_all is_hex_digit g" by blast
    then obtain x g' where xg: "g = x # g'" by (cases g) auto
    have "rmatch hex_class s = Some (g' @ t)" using g xg by (simp add: rmatch_hex_iff)
    moreover have "rmatch (Rep hex_class n) (g' @ t) = Some t"
      using Suc.IH[of "g' @ t"] g xg by auto
    ultimately show "rmatch (Rep hex_class (Suc n)) s = Some t" by simp
  qed
qed

lemma rmatch_Cat_iff: "rmatch (Cat a b) s = Some t \<longleftrightarrow> (\<exists>u. rmatch a s = Some u \<and> rmatch b u = Some t)"
  by (auto split: option.splits)

lemma fullmatch_rule_id_iff: "fullmatch RULE_ID_PATTERN s \<longleftrightarrow> rule_id_shape s"
proof
  assume "fullmatch RULE_ID_PATTERN s"
  then obtain g1 g2 g3 g4 g5 where
      "s = CHR ''r'' # CHR ''u'' # CHR ''_'' # g1 @ CHR ''-'' # g2 @ CHR ''-'' # g3 @ CHR ''-'' # g4 @ CHR ''-'' # g5"
      "length g1 = 8" "length g2 = 4" "length g3 = 4" "length g4 = 4" "length g5 = 12"
      "list_all is_hex_digit g1" "list_all is_hex_digit g2" "list_all is_hex_digit g3"
      "list_all is_hex_digit g4" "list_all is_hex_digit g5"
    unfolding fullmatch_def RULE_ID_PATTERN_def seq.simps
    by (simp only: rmatch_Cat_iff rmatch_Chr_iff rmatch_Rep_hex_iff rmatch.simps(1)) auto
  then have "s = ''ru_'' @ (g1 @ ''-'' @ g2 @ ''-'' @ g3 @ ''-'' @ g4 @ ''-'' @ g5) \<and>
      length g1 = 8 \<and> length g2 = 4 \<and> length g3 = 4 \<and> length g4 = 4 \<and> length g5 = 12 \<and>
      list_all is_hex_digit (g1 @ g2 @ g3 @ g4 @ g5)"
    by simp
  then show "rule_id_shape s"
    unfolding rule_id_shape_def uuid_shape_def by blast
next
  assume "rule_id_shape s"
  then obtain g1 g2 g3 g4 g5 where
      s: "s = ''ru_'' @ (g1 @ ''-'' @ g2 @ ''-'' @ g3 @ ''-'' @ g4 @ ''-'' @ g5)" and
      l: "length g1 = 8" "length g2 = 4" "length g3 = 4" "length g4 = 4" "length g5 = 12" and
      h: "list_all is_hex_digit (g1 @ g2 @ g3 @ g4 @ g5)"
    unfolding rule_id_shape_def uuid_shape_def by blast
  have r5: "rmatch (Rep hex_class 12) g5 = Some []"
    using l h by (simp add: rmatch_Rep_hex_iff)
  have r4: "rmatch (Rep hex_class 4) (g4 @ CHR ''-'' # g5) = Some (CHR ''-'' # g5)"
    using l h by (simp add: rmatch_Rep_hex_iff)
  have r3: "rmatch (Rep hex_class 4) (g3 @ CHR ''-'' # g4 @ CHR ''-'' # g5) = Some (CHR ''-'' # g4 @ CHR ''-'' # g5)"
    using l h by (simp add: rmatch_Rep_hex_iff)
  have r2: "rmatch (Rep hex_class 4) (g2 @ CHR ''-'' # g3 @ CHR ''-'' # g4 @ CHR ''-'' # g5)
      = Some (CHR ''-'' # g3 @ CHR ''-'' # g4 @ CHR ''-'' # g5)"
    using l h by (simp add: rmatch_Rep_hex_iff)
  have r1: "rmatch (Rep hex_class 8) (g1 @ CHR ''-'' # g2 @ CHR ''-'' # g3 @ CHR ''-'' # g4 @ CHR ''-'' # g5)
      = Some (CHR ''-'' # g2 @ CHR ''-'' # g3 @ CHR ''-'' # g4 @ CHR ''-'' # g5)"
    using l h by (simp add: rmatch_Rep_hex_iff)
  show "fullmatch RULE_ID_PATTERN s"
    unfolding fullmatch_def RULE_ID_PATTERN_def seq.simps s
    by (simp add: r1 r2 r3 r4 r5)
qed

section \<open>The ways through the function\<close>

lemma enable_live_rule_rejected:
  assumes "\<not> fullmatch RULE_ID_PATTERN rule_id"
  shows "enable_live_rule stdout http_session rule_id =
           (Inl (ValueError (''Invalid detection rule ID: '' @ [CHR 0x27] @ rule_id @ [CHR 0x27]
                              @ '' != 'ru_<UUID>'.'')), [])"
  using assms by (simp add: enable_live_rule_def)

lemma enable_live_rule_raised:
  assumes "fullmatch RULE_ID_PATTERN rule_id"
    and "http_session ''POST'' (CHRONICLE_API_BASE_URL @ ''/v1/rules/'' @ rule_id @ '':enableLiveRule'') = Inl e"
  shows "enable_live_rule stdout http_session rule_id =
           (Inl e, [Request ''POST'' (CHRONICLE_API_BASE_URL @ ''/v1/rules/'' @ rule_id @ '':enableLiveRule'')])"
  using assms by (simp add: enable_live_rule_def)

lemma enable_live_rule_quiet:
  assumes "fullmatch RULE_ID_PATTERN rule_id"
    and "http_session ''POST'' (CHRONICLE_API_BASE_URL @ ''/v1/rules/'' @ rule_id @ '':enableLiveRule'') = Inr response"
    and "status_code response < 400"
  shows "enable_live_rule stdout http_session rule_id =
           ((case raise_for_status response of Some e \<Rightarrow> Inl e | None \<Rightarrow> operation_id response),
            [Request ''POST'' (CHRONICLE_API_BASE_URL @ ''/v1/rules/'' @ rule_id @ '':enableLiveRule'')])"
  using assms by (simp add: enable_live_rule_def Let_def split: option.splits)

lemma enable_live_rule_printed:
  assumes "fullmatch RULE_ID_PATTERN rule_id"
    and "http_session ''POST'' (CHRONICLE_API_BASE_URL @ ''/v1/rules/'' @ rule_id @ '':enableLiveRule'') = Inr response"
    and "400 \<le> status_code response"
    and "stdout (text_body response) = None"
  shows "enable_live_rule stdout http_session rule_id =
           ((case raise_for_status response of Some e \<Rightarrow> Inl e | None \<Rightarrow> operation_id response),
            [Request ''POST'' (CHRONICLE_API_BASE_URL @ ''/v1/rules/'' @ rule_id @ '':enableLiveRule''), Print (text_body response)])"
  using assms by (simp add: enable_live_rule_def print_def Let_def split: option.splits)

lemma enable_live_rule_print_failed:
  assumes "fullmatch RULE_ID_PATTERN rule_id"
    and "http_session ''POST'' (CHRONICLE_API_BASE_URL @ ''/v1/rules/'' @ rule_id @ '':enableLiveRule'') = Inr response"
    and "400 \<le> status_code response"
    and "stdout (text_body response) = Some name"
  shows "enable_live_rule stdout http_session rule_id = (Inl (PrintError name), [Request ''POST'' (CHRONICLE_API_BASE_URL @ ''/v1/rules/'' @ rule_id @ '':enableLiveRule'')])"
  using assms by (simp add: enable_live_rule_def print_def Let_def)

lemma requests_of_enable_live_rule:
  assumes ok: "fullmatch RULE_ID_PATTERN rule_id"
  shows "requests_of (snd (enable_live_rule stdout http_session rule_id)) = [(''POST'', (CHRONICLE_API_BASE_URL @ ''/v1/rules/'' @ rule_id @ '':enableLiveRule''))]"
proof (cases "http_session ''POST'' (CHRONICLE_API_BASE_URL @ ''/v1/rules/'' @ rule_id @ '':enableLiveRule'')")
  case (Inl e)
  show ?thesis
    by (simp add: enable_live_rule_raised [where http_session = http_session, OF ok Inl])
next
  case (Inr response)
  show ?thesis
  proof (cases "400 \<le> status_code response")
    case False
    then have "status_code response < 400" by simp
    then show ?thesis
      by (simp add: enable_live_rule_quiet [where http_session = http_session, OF ok Inr])
  next
    case True
    show ?thesis
    proof (cases "stdout (text_body response)")
      case None
      show ?thesis
        by (simp add: enable_live_rule_printed [where stdout = stdout and http_session = http_session, OF ok Inr True None])
    next
      case (Some name)
      show ?thesis
        by (simp add: enable_live_rule_print_failed [where stdout = stdout and http_session = http_session, OF ok Inr True Some])
    qed
  qed
qed

lemma fullmatch_sample_id: "fullmatch RULE_ID_PATTERN ''ru_12345678-1234-1234-1234-123456789abc''"
  by code_simp

section \<open>Splitting at a separator\<close>

lemma split_from_takeWhile:
  "sep \<in> set s \<Longrightarrow> split_from sep acc s =
     (acc @ takeWhile (\<lambda>c. c \<noteq> sep) s) # split_from sep [] (drop 1 (dropWhile (\<lambda>c. c \<noteq> sep) s))"
  by (induction s arbitrary: acc) auto

lemma split_from_nonempty: "split_from sep acc s \<noteq> []"
  by (induction s arbitrary: acc) auto

lemma hd_split_from: "hd (split_from sep acc s) = acc @ takeWhile (\<lambda>c. c \<noteq> sep) s"
  by (induction s arbitrary: acc) auto

lemma length_split_from: "length (split_from sep acc s) = Suc (count_list s sep)"
  by (induction s arbitrary: acc) auto

lemma length_str_split: "length (str_split s sep) = Suc (count_list s sep)"
  by (simp add: str_split_def length_split_from)

lemma str_split_long_iff: "2 \<le> length (str_split s sep) \<longleftrightarrow> sep \<in> set s"
  using count_list_0_iff [of s sep] by (auto simp add: length_str_split)

lemma str_split_second:
  assumes "sep \<in> set s"
  shows "str_split s sep ! 1 = takeWhile (\<lambda>c. c \<noteq> sep) (drop 1 (dropWhile (\<lambda>c. c \<noteq> sep) s))"
proof -
  let ?rest = "drop 1 (dropWhile (\<lambda>c. c \<noteq> sep) s)"
  have "str_split s sep = takeWhile (\<lambda>c. c \<noteq> sep) s # split_from sep [] ?rest"
    using assms by (simp add: str_split_def split_from_takeWhile)
  then have "str_split s sep ! 1 = hd (split_from sep [] ?rest)"
    using split_from_nonempty [of sep "[]" ?rest] by (simp add: hd_conv_nth)
  then show ?thesis by (simp add: hd_split_from)
qed

lemma takeWhile_no_sep: "sep \<notin> set cs \<Longrightarrow> takeWhile (\<lambda>c. c \<noteq> sep) cs = cs"
  by (induction cs) auto

lemma one_sep_rest: "count_list s sep = 1 \<Longrightarrow> sep \<notin> set (drop 1 (dropWhile (\<lambda>c. c \<noteq> sep) s))"
proof (induction s)
  case Nil
  then show ?case by simp
next
  case (Cons c cs)
  show ?case
  proof (cases "c = sep")
    case True
    with Cons.prems have "count_list cs sep = 0" by simp
    then have "sep \<notin> set cs" by (simp add: count_list_0_iff)
    with True show ?thesis by simp
  next
    case False
    with Cons.prems have "count_list cs sep = 1" by simp
    then have "sep \<notin> set (drop 1 (dropWhile (\<lambda>c. c \<noteq> sep) cs))" by (rule Cons.IH)
    with False show ?thesis by simp
  qed
qed

lemma takeWhile_suffix_one_sep:
  assumes "count_list s sep = 1"
  shows "takeWhile (\<lambda>c. c \<noteq> sep) (drop 1 (dropWhile (\<lambda>c. c \<noteq> sep) s))
           = drop 1 (dropWhile (\<lambda>c. c \<noteq> sep) s)"
  by (rule takeWhile_no_sep [OF one_sep_rest [OF assms]])

section \<open>Reading the response\<close>






lemma operation_id_string_name:
  assumes "json response = Some (JObj kvs)" and "map_of kvs ''name'' = Some (JStr name)"
  shows "operation_id response = index (str_split name CHR ''/'') 1"
  using assms by (simp add: operation_id_def)

lemma operation_id_no_name:
  assumes "json response = Some (JObj kvs)" and "map_of kvs ''name'' = None"
  shows "operation_id response = Inl (KeyError ''name'')"
  using assms by (simp add: operation_id_def)

lemma enable_live_rule_success:
  assumes "fullmatch RULE_ID_PATTERN rule_id"
    and "http_session ''POST'' (CHRONICLE_API_BASE_URL @ ''/v1/rules/'' @ rule_id @ '':enableLiveRule'') = Inr response"
    and "status_code response < 400"
  shows "enable_live_rule stdout http_session rule_id =
           (operation_id response,
            [Request ''POST'' (CHRONICLE_API_BASE_URL @ ''/v1/rules/'' @ rule_id @ '':enableLiveRule'')])"
  using assms(3)
  by (simp add: enable_live_rule_quiet [where http_session = http_session, OF assms(1,2,3)]
                raise_for_status_def)


section \<open>Claims\<close>

text \<open>
  C1. For every string \<open>s\<close>, the identifier check of \<open>enable_live_rule\<close> accepts \<open>s\<close>
  exactly when the whole of \<open>s\<close> is \<^verbatim>\<open>ru_\<close> followed by hexadecimal groups of 8, 4, 4, 4
  and 12 digits of either case separated by hyphens. An accepted \<open>s\<close> reaches the request;
  every other \<open>s\<close> ends in a \<open>ValueError\<close> whose message holds \<open>s\<close> and the expected shape
  \<^verbatim>\<open>ru_<UUID>\<close>, with no effect at all, so no request is sent.
\<close>

theorem C1_rule_id_validation:
  "(fullmatch RULE_ID_PATTERN s \<longleftrightarrow> rule_id_shape s) \<and>
   (rule_id_shape s \<longrightarrow> requests_of (snd (enable_live_rule stdout http_session s)) \<noteq> []) \<and>
   (\<not> rule_id_shape s \<longrightarrow>
      enable_live_rule stdout http_session s =
        (Inl (ValueError (''Invalid detection rule ID: '' @ [CHR 0x27] @ s @ [CHR 0x27]
                           @ '' != 'ru_<UUID>'.'')), []))"
proof (intro conjI impI)
  show "fullmatch RULE_ID_PATTERN s \<longleftrightarrow> rule_id_shape s"
    by (rule fullmatch_rule_id_iff)
next
  assume "rule_id_shape s"
  then have ok: "fullmatch RULE_ID_PATTERN s"
    by (simp add: fullmatch_rule_id_iff)
  show "requests_of (snd (enable_live_rule stdout http_session s)) \<noteq> []"
    by (simp add: requests_of_enable_live_rule [OF ok])
next
  assume "\<not> rule_id_shape s"
  then have "\<not> fullmatch RULE_ID_PATTERN s"
    by (simp add: fullmatch_rule_id_iff)
  then show "enable_live_rule stdout http_session s =
        (Inl (ValueError (''Invalid detection rule ID: '' @ [CHR 0x27] @ s @ [CHR 0x27]
                           @ '' != 'ru_<UUID>'.'')), [])"
    by (rule enable_live_rule_rejected)
qed

text \<open>
  The sample identifier is accepted, and the same identifier with a trailing blank is
  rejected before anything is sent.
\<close>

theorem C1_rule_id_validation_witness:
  "rule_id_shape ''ru_12345678-1234-1234-1234-123456789abc'' \<and>
   requests_of (snd (enable_live_rule accepting_stdout (failing_session (TransportError ''down''))
                       ''ru_12345678-1234-1234-1234-123456789abc'')) \<noteq> [] \<and>
   \<not> rule_id_shape ''ru_12345678-1234-1234-1234-123456789abc '' \<and>
   enable_live_rule accepting_stdout (failing_session (TransportError ''down''))
       ''ru_12345678-1234-1234-1234-123456789abc '' =
     (Inl (ValueError ''Invalid detection rule ID: 'ru_12345678-1234-1234-1234-123456789abc ' != 'ru_<UUID>'.''), [])"
proof -
  have yes: "fullmatch RULE_ID_PATTERN ''ru_12345678-1234-1234-1234-123456789abc''"
    by code_simp
  have no: "\<not> fullmatch RULE_ID_PATTERN ''ru_12345678-1234-1234-1234-123456789abc ''"
    by code_simp
  note a = C1_rule_id_validation [where s = "''ru_12345678-1234-1234-1234-123456789abc''"
             and stdout = accepting_stdout
             and http_session = "failing_session (TransportError ''down'')"]
  note b = C1_rule_id_validation [where s = "''ru_12345678-1234-1234-1234-123456789abc ''"
             and stdout = accepting_stdout
             and http_session = "failing_session (TransportError ''down'')"]
  have shape_yes: "rule_id_shape ''ru_12345678-1234-1234-1234-123456789abc''"
    using a yes by blast
  have shape_no: "\<not> rule_id_shape ''ru_12345678-1234-1234-1234-123456789abc ''"
    using b no by blast
  have sent: "requests_of (snd (enable_live_rule accepting_stdout (failing_session (TransportError ''down''))
                       ''ru_12345678-1234-1234-1234-123456789abc'')) \<noteq> []"
    using a shape_yes by blast
  have "enable_live_rule accepting_stdout (failing_session (TransportError ''down''))
       ''ru_12345678-1234-1234-1234-123456789abc '' =
     (Inl (ValueError (''Invalid detection rule ID: '' @ [CHR 0x27] @ ''ru_12345678-1234-1234-1234-123456789abc '' @ [CHR 0x27]
                           @ '' != 'ru_<UUID>'.'')), [])"
    using b shape_no by blast
  then have rejected: "enable_live_rule accepting_stdout (failing_session (TransportError ''down''))
       ''ru_12345678-1234-1234-1234-123456789abc '' =
     (Inl (ValueError ''Invalid detection rule ID: 'ru_12345678-1234-1234-1234-123456789abc ' != 'ru_<UUID>'.''), [])"
    by simp
  show ?thesis using shape_yes sent shape_no rejected by blast
qed

text \<open>
  C2, as stated, fails. With the name \<^verbatim>\<open>operations/a/b\<close> the function returns \<^verbatim>\<open>a\<close>, while
  the suffix after the first slash is \<^verbatim>\<open>a/b\<close>.
\<close>

theorem C2_counterexample:
  "fst (enable_live_rule accepting_stdout
          (fake_session \<lparr>status_code = 200, text_body = ''{\"name\": \"operations/a/b\"}'',
                          json = Some (JObj [(''name'', JStr ''operations/a/b'')])\<rparr>)
          ''ru_12345678-1234-1234-1234-123456789abc'')
     \<noteq> Inr (suffix_after_first_slash ''operations/a/b'')"
  by code_simp

text \<open>
  C2, amended. For every response with a success status whose JSON body has a string field
  \<^verbatim>\<open>name\<close> containing at least one \<^verbatim>\<open>/\<close>, the returned string is the suffix of \<^verbatim>\<open>name\<close> after
  the first \<^verbatim>\<open>/\<close>, cut before the next \<^verbatim>\<open>/\<close> if there is one. It is the whole suffix when
  \<^verbatim>\<open>name\<close> contains exactly one \<^verbatim>\<open>/\<close>.
\<close>

theorem C2_second_segment:
  assumes "fullmatch RULE_ID_PATTERN rule_id"
    and "http_session ''POST'' (CHRONICLE_API_BASE_URL @ ''/v1/rules/'' @ rule_id @ '':enableLiveRule'') = Inr response"
    and "status_code response < 400"
    and "json response = Some (JObj kvs)"
    and "map_of kvs ''name'' = Some (JStr name)"
    and "CHR ''/'' \<in> set name"
  shows "fst (enable_live_rule stdout http_session rule_id)
           = Inr (takeWhile (\<lambda>c. c \<noteq> CHR ''/'') (suffix_after_first_slash name)) \<and>
         (count_list name CHR ''/'' = 1 \<longrightarrow>
            fst (enable_live_rule stdout http_session rule_id) = Inr (suffix_after_first_slash name))"
proof -
  have len: "1 < length (str_split name CHR ''/'')"
    using assms(6) str_split_long_iff [of name "CHR ''/''"] by simp
  have run: "fst (enable_live_rule stdout http_session rule_id) = Inr (str_split name CHR ''/'' ! 1)"
    using len
    by (simp add: enable_live_rule_success [where http_session = http_session, OF assms(1,2,3)]
                  operation_id_string_name [OF assms(4,5)] index_def)
  have second: "str_split name CHR ''/'' ! 1
           = takeWhile (\<lambda>c. c \<noteq> CHR ''/'') (suffix_after_first_slash name)"
    unfolding suffix_after_first_slash_def by (rule str_split_second [OF assms(6)])
  have seg: "fst (enable_live_rule stdout http_session rule_id)
           = Inr (takeWhile (\<lambda>c. c \<noteq> CHR ''/'') (suffix_after_first_slash name))"
    unfolding run second by (rule refl)
  have whole: "fst (enable_live_rule stdout http_session rule_id) = Inr (suffix_after_first_slash name)"
    if one: "count_list name CHR ''/'' = 1"
  proof -
    have "takeWhile (\<lambda>c. c \<noteq> CHR ''/'') (suffix_after_first_slash name) = suffix_after_first_slash name"
      unfolding suffix_after_first_slash_def by (rule takeWhile_suffix_one_sep [OF one])
    then show ?thesis unfolding seg by (rule arg_cong)
  qed
  show ?thesis
  proof (intro conjI impI)
    show "fst (enable_live_rule stdout http_session rule_id)
           = Inr (takeWhile (\<lambda>c. c \<noteq> CHR ''/'') (suffix_after_first_slash name))"
      by (rule seg)
  next
    assume "count_list name CHR ''/'' = 1"
    then show "fst (enable_live_rule stdout http_session rule_id) = Inr (suffix_after_first_slash name)"
      by (rule whole)
  qed
qed

text \<open>Both cases on concrete responses: two slashes and one slash.\<close>

theorem C2_second_segment_witness:
  "fullmatch RULE_ID_PATTERN ''ru_12345678-1234-1234-1234-123456789abc'' \<and>
   CHR ''/'' \<in> set ''operations/a/b'' \<and>
   fst (enable_live_rule accepting_stdout
          (fake_session \<lparr>status_code = 200, text_body = ''{\"name\": \"operations/a/b\"}'',
                          json = Some (JObj [(''name'', JStr ''operations/a/b'')])\<rparr>)
          ''ru_12345678-1234-1234-1234-123456789abc'') = Inr ''a'' \<and>
   count_list ''operations/a'' CHR ''/'' = 1 \<and>
   fst (enable_live_rule accepting_stdout
          (fake_session \<lparr>status_code = 200, text_body = ''{\"name\": \"operations/a\"}'',
                          json = Some (JObj [(''name'', JStr ''operations/a'')])\<rparr>)
          ''ru_12345678-1234-1234-1234-123456789abc'') = Inr ''a''"
proof -
  let ?id = "''ru_12345678-1234-1234-1234-123456789abc''"
  let ?r2 = "\<lparr>status_code = 200, text_body = ''{\"name\": \"operations/a/b\"}'',
               json = Some (JObj [(''name'', JStr ''operations/a/b'')])\<rparr>"
  let ?r1 = "\<lparr>status_code = 200, text_body = ''{\"name\": \"operations/a\"}'',
               json = Some (JObj [(''name'', JStr ''operations/a'')])\<rparr>"
  have two: "CHR ''/'' \<in> set ''operations/a/b''" by simp
  have in1: "CHR ''/'' \<in> set ''operations/a''" by simp
  have one: "count_list ''operations/a'' CHR ''/'' = 1" by simp
  have v2: "takeWhile (\<lambda>c. c \<noteq> CHR ''/'') (suffix_after_first_slash ''operations/a/b'') = ''a''"
    by (simp add: suffix_after_first_slash_def)
  have v1: "suffix_after_first_slash ''operations/a'' = ''a''"
    by (simp add: suffix_after_first_slash_def)
  have s2: "fake_session ?r2 ''POST'' (CHRONICLE_API_BASE_URL @ ''/v1/rules/'' @ ?id @ '':enableLiveRule'') = Inr ?r2"
    by (simp only: fake_session_def)
  have s1: "fake_session ?r1 ''POST'' (CHRONICLE_API_BASE_URL @ ''/v1/rules/'' @ ?id @ '':enableLiveRule'') = Inr ?r1"
    by (simp only: fake_session_def)
  have a: "fst (enable_live_rule accepting_stdout (fake_session ?r2) ?id)
             = Inr (takeWhile (\<lambda>c. c \<noteq> CHR ''/'') (suffix_after_first_slash ''operations/a/b''))"
    by (rule C2_second_segment [where stdout = accepting_stdout and http_session = "fake_session ?r2" and response = ?r2
            and kvs = "[(''name'', JStr ''operations/a/b'')]", OF fullmatch_sample_id s2 _ _ _ two,
            THEN conjunct1]) simp_all
  have b: "fst (enable_live_rule accepting_stdout (fake_session ?r1) ?id) = Inr (suffix_after_first_slash ''operations/a'')"
    by (rule C2_second_segment [where stdout = accepting_stdout and http_session = "fake_session ?r1" and response = ?r1
            and kvs = "[(''name'', JStr ''operations/a'')]", OF fullmatch_sample_id s1 _ _ _ in1,
            THEN conjunct2, THEN mp, OF _ _ _ one]) simp_all
  show ?thesis
    unfolding a b v1 v2 using fullmatch_sample_id two one by simp
qed


text \<open>
  C3. The claim asks for an \<open>HTTPError\<close> at every status code from 400 on. At status 600,
  on a standard output that takes the body, the function prints the body, as for any status
  from 400 on, but \<open>raise_for_status\<close> returns, and the function goes on to read the body: here it ends in the \<open>KeyError\<close> of
  the missing \<^verbatim>\<open>name\<close> field, not in an \<open>HTTPError\<close>.
\<close>

theorem C3_status_600_not_raised:
  "enable_live_rule accepting_stdout
     (fake_session \<lparr>status_code = 600, text_body = ''{\"error\": \"not found\"}'',
                     json = Some (JObj [(''error'', JStr ''not found'')])\<rparr>)
     ''ru_12345678-1234-1234-1234-123456789abc''
   = (Inl (KeyError ''name''),
      [Request ''POST''
         ''https://backstory.googleapis.com/v1/rules/ru_12345678-1234-1234-1234-123456789abc:enableLiveRule'',
       Print ''{\"error\": \"not found\"}''])"
  by code_simp

text \<open>
  C4, as stated, fails. For the body \<^verbatim>\<open>{"name": "rulejob_jo_xyz"}\<close> the function ends in
  Python's \<open>IndexError\<close>, which is not a \<open>MalformedResponse\<close> error.
\<close>

theorem C4_counterexample:
  "fst (enable_live_rule accepting_stdout
          (fake_session \<lparr>status_code = 200, text_body = ''{\"name\": \"rulejob_jo_xyz\"}'',
                          json = Some (JObj [(''name'', JStr ''rulejob_jo_xyz'')])\<rparr>)
          ''ru_12345678-1234-1234-1234-123456789abc'') = Inl IndexError \<and>
   spec_error_kind IndexError \<noteq> Some MalformedResponse"
  by code_simp

text \<open>
  C4, amended. For every response with a success status whose JSON body is an object, the
  function fails with \<open>KeyError\<close> when the object has no \<^verbatim>\<open>name\<close> field, and with
  \<open>IndexError\<close> when \<^verbatim>\<open>name\<close> is a string without any \<^verbatim>\<open>/\<close>.
\<close>

theorem C4_lookup_errors:
  assumes "fullmatch RULE_ID_PATTERN rule_id"
    and "http_session ''POST'' (CHRONICLE_API_BASE_URL @ ''/v1/rules/'' @ rule_id @ '':enableLiveRule'') = Inr response"
    and "status_code response < 400"
    and "json response = Some (JObj kvs)"
  shows "(map_of kvs ''name'' = None \<longrightarrow>
            fst (enable_live_rule stdout http_session rule_id) = Inl (KeyError ''name'')) \<and>
         (\<forall>name. map_of kvs ''name'' = Some (JStr name) \<and> CHR ''/'' \<notin> set name \<longrightarrow>
            fst (enable_live_rule stdout http_session rule_id) = Inl IndexError)"
proof (intro conjI impI allI)
  assume "map_of kvs ''name'' = None"
  then show "fst (enable_live_rule stdout http_session rule_id) = Inl (KeyError ''name'')"
    by (simp add: enable_live_rule_success [where http_session = http_session, OF assms(1,2,3)]
                  operation_id_no_name [OF assms(4)])
next
  fix name
  assume a: "map_of kvs ''name'' = Some (JStr name) \<and> CHR ''/'' \<notin> set name"
  then have "\<not> 1 < length (str_split name CHR ''/'')"
    using str_split_long_iff [of name "CHR ''/''"] by simp
  then show "fst (enable_live_rule stdout http_session rule_id) = Inl IndexError"
    using a
    by (simp add: enable_live_rule_success [where http_session = http_session, OF assms(1,2,3)]
                  operation_id_string_name [OF assms(4)] index_def)
qed

text \<open>An empty object, and the specification's example of a name without a slash.\<close>

theorem C4_lookup_errors_witness:
  "fst (enable_live_rule accepting_stdout
          (fake_session \<lparr>status_code = 200, text_body = ''{}'', json = Some (JObj [])\<rparr>)
          ''ru_12345678-1234-1234-1234-123456789abc'') = Inl (KeyError ''name'') \<and>
   fst (enable_live_rule accepting_stdout
          (fake_session \<lparr>status_code = 200, text_body = ''{\"name\": \"rulejob_jo_xyz\"}'',
                          json = Some (JObj [(''name'', JStr ''rulejob_jo_xyz'')])\<rparr>)
          ''ru_12345678-1234-1234-1234-123456789abc'') = Inl IndexError"
proof -
  let ?id = "''ru_12345678-1234-1234-1234-123456789abc''"
  let ?r0 = "\<lparr>status_code = 200, text_body = ''{}'', json = Some (JObj [])\<rparr>"
  let ?r1 = "\<lparr>status_code = 200, text_body = ''{\"name\": \"rulejob_jo_xyz\"}'',
               json = Some (JObj [(''name'', JStr ''rulejob_jo_xyz'')])\<rparr>"
  have s0: "fake_session ?r0 ''POST'' (CHRONICLE_API_BASE_URL @ ''/v1/rules/'' @ ?id @ '':enableLiveRule'') = Inr ?r0"
    by (simp only: fake_session_def)
  have s1: "fake_session ?r1 ''POST'' (CHRONICLE_API_BASE_URL @ ''/v1/rules/'' @ ?id @ '':enableLiveRule'') = Inr ?r1"
    by (simp only: fake_session_def)
  have c0: "status_code ?r0 < 400" and j0: "json ?r0 = Some (JObj [])"
    by simp_all
  have c1: "status_code ?r1 < 400" and j1: "json ?r1 = Some (JObj [(''name'', JStr ''rulejob_jo_xyz'')])"
    by simp_all
  have m0: "map_of ([] :: (string \<times> json_value) list) ''name'' = None"
    by simp
  have m1: "map_of [(''name'', JStr ''rulejob_jo_xyz'')] ''name'' = Some (JStr ''rulejob_jo_xyz'')
              \<and> CHR ''/'' \<notin> set ''rulejob_jo_xyz''"
    by simp
  have a: "fst (enable_live_rule accepting_stdout (fake_session ?r0) ?id) = Inl (KeyError ''name'')"
    using C4_lookup_errors [where stdout = accepting_stdout and http_session = "fake_session ?r0", OF fullmatch_sample_id s0 c0 j0] m0
    by blast
  have b: "fst (enable_live_rule accepting_stdout (fake_session ?r1) ?id) = Inl IndexError"
    using C4_lookup_errors [where stdout = accepting_stdout and http_session = "fake_session ?r1", OF fullmatch_sample_id s1 c1 j1] m1
    by blast
  show ?thesis using a b by (rule conjI)
qed

text \<open>
  C5. For every identifier that passes the check, the one request of the function is a POST
  to the base URL followed by \<^verbatim>\<open>/v1/rules/\<close>, the identifier and \<^verbatim>\<open>:enableLiveRule\<close>; for
  \<^verbatim>\<open>ru_12345678-1234-1234-1234-123456789abc\<close> that is the base URL followed by
  \<^verbatim>\<open>/v1/rules/ru_12345678-1234-1234-1234-123456789abc:enableLiveRule\<close>.
\<close>

theorem C5_request_url:
  assumes "fullmatch RULE_ID_PATTERN rule_id"
  shows "requests_of (snd (enable_live_rule stdout http_session rule_id))
           = [(''POST'', CHRONICLE_API_BASE_URL @ ''/v1/rules/'' @ rule_id @ '':enableLiveRule'')] \<and>
         requests_of (snd (enable_live_rule stdout http_session ''ru_12345678-1234-1234-1234-123456789abc''))
           = [(''POST'', CHRONICLE_API_BASE_URL
                 @ ''/v1/rules/ru_12345678-1234-1234-1234-123456789abc:enableLiveRule'')]"
proof -
  have sent: "requests_of (snd (enable_live_rule stdout http_session r))
           = [(''POST'', CHRONICLE_API_BASE_URL @ ''/v1/rules/'' @ r @ '':enableLiveRule'')]"
    if ok: "fullmatch RULE_ID_PATTERN r" for r
    by (rule requests_of_enable_live_rule [OF ok])
  have "requests_of (snd (enable_live_rule stdout http_session ''ru_12345678-1234-1234-1234-123456789abc''))
           = [(''POST'', CHRONICLE_API_BASE_URL @ ''/v1/rules/''
                 @ ''ru_12345678-1234-1234-1234-123456789abc'' @ '':enableLiveRule'')]"
    by (rule sent [OF fullmatch_sample_id])
  then have "requests_of (snd (enable_live_rule stdout http_session ''ru_12345678-1234-1234-1234-123456789abc''))
           = [(''POST'', CHRONICLE_API_BASE_URL
                 @ ''/v1/rules/ru_12345678-1234-1234-1234-123456789abc:enableLiveRule'')]"
    by simp
  with sent [OF assms] show ?thesis by (rule conjI)
qed

text \<open>The URL written out, on a session whose request times out.\<close>

theorem C5_request_url_witness:
  "fullmatch RULE_ID_PATTERN ''ru_12345678-1234-1234-1234-123456789abc'' \<and>
   requests_of (snd (enable_live_rule accepting_stdout (failing_session (TransportError ''timeout''))
                       ''ru_12345678-1234-1234-1234-123456789abc''))
     = [(''POST'', ''https://backstory.googleapis.com/v1/rules/ru_12345678-1234-1234-1234-123456789abc:enableLiveRule'')]"
proof -
  have "requests_of (snd (enable_live_rule accepting_stdout (failing_session (TransportError ''timeout''))
                       ''ru_12345678-1234-1234-1234-123456789abc''))
     = [(''POST'', CHRONICLE_API_BASE_URL @ ''/v1/rules/''
            @ ''ru_12345678-1234-1234-1234-123456789abc'' @ '':enableLiveRule'')]"
    by (rule C5_request_url [OF fullmatch_sample_id, THEN conjunct1])
  then have "requests_of (snd (enable_live_rule accepting_stdout (failing_session (TransportError ''timeout''))
                       ''ru_12345678-1234-1234-1234-123456789abc''))
     = [(''POST'', ''https://backstory.googleapis.com/v1/rules/ru_12345678-1234-1234-1234-123456789abc:enableLiveRule'')]"
    by (simp add: CHRONICLE_API_BASE_URL_def)
  with fullmatch_sample_id show ?thesis by (rule conjI)
qed

text \<open>
  C6. Given a response with a success status and the body
  \<^verbatim>\<open>{"name": "operations/rulejob_jo_aaaa1111-bbbb-2222-cccc-333344445555"}\<close>, the function
  returns exactly \<^verbatim>\<open>rulejob_jo_aaaa1111-bbbb-2222-cccc-333344445555\<close>.
\<close>

theorem C6_sample_response:
  assumes "fullmatch RULE_ID_PATTERN rule_id"
    and "http_session ''POST'' (CHRONICLE_API_BASE_URL @ ''/v1/rules/'' @ rule_id @ '':enableLiveRule'') = Inr response"
    and "status_code response < 400"
    and "json response = Some (JObj [(''name'', JStr ''operations/rulejob_jo_aaaa1111-bbbb-2222-cccc-333344445555'')])"
  shows "fst (enable_live_rule stdout http_session rule_id) = Inr ''rulejob_jo_aaaa1111-bbbb-2222-cccc-333344445555''"
proof -
  have "index (str_split ''operations/rulejob_jo_aaaa1111-bbbb-2222-cccc-333344445555'' CHR ''/'') 1
          = Inr ''rulejob_jo_aaaa1111-bbbb-2222-cccc-333344445555''"
    by code_simp
  then show ?thesis
    by (simp add: enable_live_rule_success [where http_session = http_session, OF assms(1,2,3)]
                  operation_id_string_name [OF assms(4)])
qed

text \<open>The same on a session that answers with status 200.\<close>

theorem C6_sample_response_witness:
  "fullmatch RULE_ID_PATTERN ''ru_12345678-1234-1234-1234-123456789abc'' \<and>
   fst (enable_live_rule accepting_stdout
          (fake_session
             \<lparr>status_code = 200,
                text_body = ''{\"name\": \"operations/rulejob_jo_aaaa1111-bbbb-2222-cccc-333344445555\"}'',
                json = Some (JObj [(''name'', JStr ''operations/rulejob_jo_aaaa1111-bbbb-2222-cccc-333344445555'')])\<rparr>)
          ''ru_12345678-1234-1234-1234-123456789abc'')
     = Inr ''rulejob_jo_aaaa1111-bbbb-2222-cccc-333344445555''"
proof -
  let ?id = "''ru_12345678-1234-1234-1234-123456789abc''"
  let ?r = "\<lparr>status_code = 200,
              text_body = ''{\"name\": \"operations/rulejob_jo_aaaa1111-bbbb-2222-cccc-333344445555\"}'',
              json = Some (JObj [(''name'', JStr ''operations/rulejob_jo_aaaa1111-bbbb-2222-cccc-333344445555'')])\<rparr>"
  have s: "fake_session ?r ''POST'' (CHRONICLE_API_BASE_URL @ ''/v1/rules/'' @ ?id @ '':enableLiveRule'') = Inr ?r"
    by (simp only: fake_session_def)
  have c: "status_code ?r < 400"
    and j: "json ?r = Some (JObj [(''name'', JStr ''operations/rulejob_jo_aaaa1111-bbbb-2222-cccc-333344445555'')])"
    by simp_all
  have "fst (enable_live_rule accepting_stdout (fake_session ?r) ?id) = Inr ''rulejob_jo_aaaa1111-bbbb-2222-cccc-333344445555''"
    by (rule C6_sample_response [where stdout = accepting_stdout and http_session = "fake_session ?r", OF fullmatch_sample_id s c j])
  with fullmatch_sample_id show ?thesis by (rule conjI)
qed

text \<open>
  C7. A call with an identifier that passes the check sends exactly one request, the POST,
  whatever the session answers or raises; a call with any other identifier has no effect at
  all. The only further effect is one printed line, and only for a response whose status
  code is 400 or more: then the effects are the request followed by the print of the body.
\<close>

theorem C7_effects:
  "(fullmatch RULE_ID_PATTERN rule_id \<longrightarrow>
      requests_of (snd (enable_live_rule stdout http_session rule_id))
        = [(''POST'', CHRONICLE_API_BASE_URL @ ''/v1/rules/'' @ rule_id @ '':enableLiveRule'')]) \<and>
   (\<not> fullmatch RULE_ID_PATTERN rule_id \<longrightarrow> snd (enable_live_rule stdout http_session rule_id) = []) \<and>
   (prints_of (snd (enable_live_rule stdout http_session rule_id)) = [] \<or>
    (\<exists>response.
       http_session ''POST'' (CHRONICLE_API_BASE_URL @ ''/v1/rules/'' @ rule_id @ '':enableLiveRule'') = Inr response \<and>
       400 \<le> status_code response \<and>
       snd (enable_live_rule stdout http_session rule_id)
         = [Request ''POST'' (CHRONICLE_API_BASE_URL @ ''/v1/rules/'' @ rule_id @ '':enableLiveRule''),
            Print (text_body response)]))"
proof (cases "fullmatch RULE_ID_PATTERN rule_id")
  case False
  then show ?thesis
    by (simp add: enable_live_rule_rejected)
next
  case ok: True
  note sent = requests_of_enable_live_rule [OF ok, of stdout http_session]
  show ?thesis
  proof (cases "http_session ''POST'' (CHRONICLE_API_BASE_URL @ ''/v1/rules/'' @ rule_id @ '':enableLiveRule'')")
    case (Inl e)
    show ?thesis
      using ok sent by (simp add: enable_live_rule_raised [where http_session = http_session, OF ok Inl])
  next
    case (Inr response)
    show ?thesis
    proof (cases "400 \<le> status_code response")
      case False
      then have low: "status_code response < 400" by simp
      show ?thesis
        using ok sent
        by (simp add: enable_live_rule_quiet [where http_session = http_session, OF ok Inr low])
    next
      case high: True
      show ?thesis
      proof (cases "stdout (text_body response)")
        case None
        show ?thesis
          using ok sent high Inr
          by (simp add: enable_live_rule_printed [where stdout = stdout and http_session = http_session, OF ok Inr high None])
      next
        case (Some name)
        show ?thesis
          using ok sent
          by (simp add: enable_live_rule_print_failed [where stdout = stdout and http_session = http_session, OF ok Inr high Some])
      qed
    qed
  qed
qed

text \<open>
  A response with status 503: one request and one printed line. An identifier without its
  prefix: nothing happens.
\<close>

theorem C7_effects_witness:
  "fullmatch RULE_ID_PATTERN ''ru_12345678-1234-1234-1234-123456789abc'' \<and>
   requests_of (snd (enable_live_rule accepting_stdout
                       (fake_session \<lparr>status_code = 503, text_body = ''unavailable'', json = None\<rparr>)
                       ''ru_12345678-1234-1234-1234-123456789abc''))
     = [(''POST'', ''https://backstory.googleapis.com/v1/rules/ru_12345678-1234-1234-1234-123456789abc:enableLiveRule'')] \<and>
   prints_of (snd (enable_live_rule accepting_stdout
                       (fake_session \<lparr>status_code = 503, text_body = ''unavailable'', json = None\<rparr>)
                       ''ru_12345678-1234-1234-1234-123456789abc'')) = [''unavailable''] \<and>
   \<not> fullmatch RULE_ID_PATTERN ''12345678-1234-1234-1234-123456789abc'' \<and>
   snd (enable_live_rule accepting_stdout
          (fake_session \<lparr>status_code = 503, text_body = ''unavailable'', json = None\<rparr>)
          ''12345678-1234-1234-1234-123456789abc'') = []"
proof -
  let ?s = "fake_session \<lparr>status_code = 503, text_body = ''unavailable'', json = None\<rparr>"
  have no: "\<not> fullmatch RULE_ID_PATTERN ''12345678-1234-1234-1234-123456789abc''"
    by code_simp
  have sent: "requests_of (snd (enable_live_rule accepting_stdout ?s ''ru_12345678-1234-1234-1234-123456789abc''))
     = [(''POST'', CHRONICLE_API_BASE_URL @ ''/v1/rules/'' @ ''ru_12345678-1234-1234-1234-123456789abc'' @ '':enableLiveRule'')]"
    using C7_effects [where rule_id = "''ru_12345678-1234-1234-1234-123456789abc''"
            and stdout = accepting_stdout and http_session = ?s] fullmatch_sample_id
    by blast
  have printed: "prints_of (snd (enable_live_rule accepting_stdout ?s ''ru_12345678-1234-1234-1234-123456789abc'')) = [''unavailable'']"
    by code_simp
  have unsent: "snd (enable_live_rule accepting_stdout ?s ''12345678-1234-1234-1234-123456789abc'') = []"
    using C7_effects [where rule_id = "''12345678-1234-1234-1234-123456789abc''"
            and stdout = accepting_stdout and http_session = ?s] no
    by blast
  from sent have sent': "requests_of (snd (enable_live_rule accepting_stdout ?s ''ru_12345678-1234-1234-1234-123456789abc''))
     = [(''POST'', ''https://backstory.googleapis.com/v1/rules/ru_12345678-1234-1234-1234-123456789abc:enableLiveRule'')]"
    by (simp add: CHRONICLE_API_BASE_URL_def)
  show ?thesis
    by (intro conjI) (rule fullmatch_sample_id sent' printed no unsent)+
qed




text \<open>
  C9, as stated, fails in its example: for the name \<^verbatim>\<open>/x/\<close> the pieces are the empty
  string, \<^verbatim>\<open>x\<close> and the empty string, so the function returns \<^verbatim>\<open>x\<close>, not the empty string.
\<close>

theorem C9_counterexample:
  "fst (enable_live_rule accepting_stdout
          (fake_session \<lparr>status_code = 200, text_body = ''{\"name\": \"/x/\"}'',
                          json = Some (JObj [(''name'', JStr ''/x/'')])\<rparr>)
          ''ru_12345678-1234-1234-1234-123456789abc'') \<noteq> Inr ''''"
  by code_simp

text \<open>
  C9, amended. For every response with a success status whose \<^verbatim>\<open>name\<close> field is a string
  with at least two \<^verbatim>\<open>/\<close>-separated pieces, the second piece is returned as it is, whatever
  its form; nothing requires it to be \<^verbatim>\<open>rulejob_jo_<UUID>\<close> (it is \<^verbatim>\<open>x\<close> for the name \<^verbatim>\<open>/x/\<close>
  and the empty string for the name \<^verbatim>\<open>//\<close>).
\<close>

theorem C9_segment_not_validated:
  assumes "fullmatch RULE_ID_PATTERN rule_id"
    and "http_session ''POST'' (CHRONICLE_API_BASE_URL @ ''/v1/rules/'' @ rule_id @ '':enableLiveRule'') = Inr response"
    and "status_code response < 400"
    and "json response = Some (JObj kvs)"
    and "map_of kvs ''name'' = Some (JStr name)"
    and "2 \<le> length (str_split name CHR ''/'')"
  shows "fst (enable_live_rule stdout http_session rule_id) = Inr (str_split name CHR ''/'' ! 1)"
  using assms(6)
  by (simp add: enable_live_rule_success [where http_session = http_session, OF assms(1,2,3)]
                operation_id_string_name [OF assms(4,5)] index_def)

text \<open>The two names of the amended claim; neither result is an operation identifier.\<close>

theorem C9_segment_not_validated_witness:
  "fullmatch RULE_ID_PATTERN ''ru_12345678-1234-1234-1234-123456789abc'' \<and>
   2 \<le> length (str_split ''/x/'' CHR ''/'') \<and>
   fst (enable_live_rule accepting_stdout
          (fake_session \<lparr>status_code = 200, text_body = ''{\"name\": \"/x/\"}'',
                          json = Some (JObj [(''name'', JStr ''/x/'')])\<rparr>)
          ''ru_12345678-1234-1234-1234-123456789abc'') = Inr ''x'' \<and>
   \<not> operation_id_shape ''x'' \<and>
   2 \<le> length (str_split ''//'' CHR ''/'') \<and>
   fst (enable_live_rule accepting_stdout
          (fake_session \<lparr>status_code = 200, text_body = ''{\"name\": \"//\"}'',
                          json = Some (JObj [(''name'', JStr ''//'')])\<rparr>)
          ''ru_12345678-1234-1234-1234-123456789abc'') = Inr '''' \<and>
   \<not> operation_id_shape ''''"
proof -
  let ?id = "''ru_12345678-1234-1234-1234-123456789abc''"
  let ?rx = "\<lparr>status_code = 200, text_body = ''{\"name\": \"/x/\"}'',
               json = Some (JObj [(''name'', JStr ''/x/'')])\<rparr>"
  let ?re = "\<lparr>status_code = 200, text_body = ''{\"name\": \"//\"}'',
               json = Some (JObj [(''name'', JStr ''//'')])\<rparr>"
  have sx: "fake_session ?rx ''POST'' (CHRONICLE_API_BASE_URL @ ''/v1/rules/'' @ ?id @ '':enableLiveRule'') = Inr ?rx"
    by (simp only: fake_session_def)
  have se: "fake_session ?re ''POST'' (CHRONICLE_API_BASE_URL @ ''/v1/rules/'' @ ?id @ '':enableLiveRule'') = Inr ?re"
    by (simp only: fake_session_def)
  have cx: "status_code ?rx < 400" and jx: "json ?rx = Some (JObj [(''name'', JStr ''/x/'')])"
    and mx: "map_of [(''name'', JStr ''/x/'')] ''name'' = Some (JStr ''/x/'')"
    by simp_all
  have ce: "status_code ?re < 400" and je: "json ?re = Some (JObj [(''name'', JStr ''//'')])"
    and me: "map_of [(''name'', JStr ''//'')] ''name'' = Some (JStr ''//'')"
    by simp_all
  have lx: "2 \<le> length (str_split ''/x/'' CHR ''/'')" and le: "2 \<le> length (str_split ''//'' CHR ''/'')"
    by (simp_all add: str_split_def)
  have vx: "str_split ''/x/'' CHR ''/'' ! 1 = ''x''" and ve: "str_split ''//'' CHR ''/'' ! 1 = ''''"
    by (simp_all add: str_split_def)
  have x: "fst (enable_live_rule accepting_stdout (fake_session ?rx) ?id) = Inr ''x''"
    using C9_segment_not_validated [where stdout = accepting_stdout and http_session = "fake_session ?rx",
            OF fullmatch_sample_id sx cx jx mx lx]
    unfolding vx .
  have e: "fst (enable_live_rule accepting_stdout (fake_session ?re) ?id) = Inr ''''"
    using C9_segment_not_validated [where stdout = accepting_stdout and http_session = "fake_session ?re",
            OF fullmatch_sample_id se ce je me le]
    unfolding ve .
  have nx: "\<not> operation_id_shape ''x''" and ne: "\<not> operation_id_shape ''''"
    by (simp_all add: operation_id_shape_def)
  show ?thesis
    by (intro conjI) (rule fullmatch_sample_id lx x nx le e ne)+
qed




end
